theory Spec2Isabelle
  imports Main "HOL-Library.Multiset"
begin

section \<open>Values on the wire\<close>

text \<open>
  The server (\<^verbatim>\<open>src/unnamed/part_003\<close>, from line 295) is an Express application
  whose handlers read string fields from a JSON body or from the URL, call the Mongoose
  models \<^verbatim>\<open>User\<close> and \<^verbatim>\<open>Item\<close>, and answer with a status code and a JSON body.

  An ObjectId is a 96-bit number; on the wire (\<open>JId\<close>) it is written with 24
  hexadecimal digits. Times are milliseconds since the epoch; on the wire (\<open>JDate\<close>)
  a time is written as an ISO 8601 string. The storage is taken to be reachable:
  a Mongoose call throws only the errors of \<open>mongoose_error\<close> below.
\<close>

type_synonym oid = nat

datatype json =
    JNum nat
  | JStr string
  | JId oid
  | JDate nat
  | JArr "json list"
  | JObj "(string \<times> json) list"

text \<open>A response is what \<^verbatim>\<open>res.status(c).json(v)\<close> sends; \<^verbatim>\<open>res.json(v)\<close> sends status 200.\<close>

type_synonym response = "nat \<times> json"

text \<open>
  \<^verbatim>\<open>req.body\<close> is a bag of fields. The handlers destructure the fields they need; a
  field that is absent reads as \<^verbatim>\<open>undefined\<close>, here \<open>None\<close>. The fields the handlers
  read are texts (every schema path they reach is of type \<^verbatim>\<open>String\<close>).
\<close>

type_synonym body = "string \<rightharpoonup> string"

text \<open>JavaScript's \<^verbatim>\<open>!v\<close> on a field that is absent or a string.\<close>

fun falsy :: "string option \<Rightarrow> bool" where
  "falsy None = True"
| "falsy (Some s) = (s = [])"

section \<open>Strings\<close>

text \<open>
  \<^verbatim>\<open>String.prototype.trim\<close> removes white space and line terminators from both ends.
  Among the characters below 256 these are tab, line feed, vertical tab, form feed,
  carriage return, space and the no-break space.
\<close>

definition is_ws :: "char \<Rightarrow> bool" where
  "is_ws c = (c \<in> set [CHR 0x09, CHR 0x0A, CHR 0x0B, CHR 0x0C, CHR 0x0D, CHR 0x20, CHR 0xA0])"

definition trim :: "string \<Rightarrow> string" where
  "trim s = rev (dropWhile is_ws (rev (dropWhile is_ws s)))"

section \<open>The document store\<close>

text \<open>
  \<^verbatim>\<open>userSchema\<close> (lines 350-363): \<^verbatim>\<open>name\<close> and \<^verbatim>\<open>email\<close> are required and trimmed,
  \<^verbatim>\<open>email\<close> is unique, \<^verbatim>\<open>password\<close> is required; \<^verbatim>\<open>timestamps: true\<close> adds
  \<^verbatim>\<open>createdAt\<close> and \<^verbatim>\<open>updatedAt\<close>. Mongoose adds \<^verbatim>\<open>_id\<close>.
\<close>

record user =
  u_id :: oid
  u_name :: string
  u_email :: string
  u_password :: string
  u_createdAt :: nat
  u_updatedAt :: nat

text \<open>
  \<^verbatim>\<open>itemSchema\<close> (lines 369-378): \<^verbatim>\<open>title\<close> is required and trimmed, \<^verbatim>\<open>description\<close>
  is trimmed with default \<^verbatim>\<open>""\<close>, \<^verbatim>\<open>userId\<close> is a required string, with timestamps.
\<close>

record item =
  i_id :: oid
  i_title :: string
  i_description :: string
  i_userId :: string
  i_createdAt :: nat
  i_updatedAt :: nat

text \<open>
  The database: the two collections in insertion order, and the next ObjectId the
  driver hands out (ObjectIds are never reused).
\<close>

record db =
  users :: "user list"
  items :: "item list"
  next_oid :: oid

definition empty_db :: db where
  "empty_db = \<lparr>users = [], items = [], next_oid = 0\<rparr>"

text \<open>
  What a Mongoose call throws: a document that fails schema validation (model name and
  the paths that failed), a value that cannot be cast to the type of its path (the
  value, the path and the model name), or an error of the MongoDB server with its
  numeric code and its message (11000 is the duplicate key error of a unique index).
\<close>

datatype mongoose_error =
    ValidationError string "string list"
  | CastError string string string
  | MongoServerError nat string

text \<open>\<^verbatim>\<open>err.code\<close>: only server errors carry one.\<close>

fun err_code :: "mongoose_error \<Rightarrow> nat option" where
  "err_code (MongoServerError c msg) = Some c"
| "err_code _ = None"

fun join :: "string \<Rightarrow> string list \<Rightarrow> string" where
  "join sep [] = []"
| "join sep [x] = x"
| "join sep (x # y # ys) = x @ sep @ join sep (y # ys)"

text \<open>\<^verbatim>\<open>err.message\<close>. A server error carries the message the server wrote.\<close>

fun err_message :: "mongoose_error \<Rightarrow> string" where
  "err_message (ValidationError model paths) =
     model @ '' validation failed: '' @
     join '', '' (map (\<lambda>p. p @ '': Path `'' @ p @ ''` is required.'') paths)"
| "err_message (CastError v path model) =
     ''Cast to ObjectId failed for value '' @ [CHR 0x22] @ v @ [CHR 0x22] @
     '' (type string) at path '' @ [CHR 0x22] @ path @ [CHR 0x22] @
     '' for model '' @ [CHR 0x22] @ model @ [CHR 0x22]"
| "err_message (MongoServerError c msg) = msg"

text \<open>
  The message of the server's duplicate key error on the unique index of \<^verbatim>\<open>email\<close>.
  The collection of the \<^verbatim>\<open>User\<close> model is \<^verbatim>\<open>users\<close> in the database that
  \<^verbatim>\<open>MONGO_URI\<close> names, \<^verbatim>\<open>test\<close> when it names none. No handler sends this message:
  the \<^verbatim>\<open>catch\<close> block of \<^verbatim>\<open>/register\<close> reads the code only.
\<close>

definition users_namespace :: string where
  "users_namespace = ''test.users''"

definition duplicate_key_message :: "string \<Rightarrow> string" where
  "duplicate_key_message email =
     ''E11000 duplicate key error collection: '' @ users_namespace @
     '' index: email_1 dup key: { email: '' @ [CHR 0x22] @ email @ [CHR 0x22] @ '' }''"

text \<open>
  The \<^verbatim>\<open>required\<close> validator of a string path fails on a missing value and on the
  empty string. The \<^verbatim>\<open>trim\<close> setter runs before validation.
\<close>

definition required_fails :: "string \<times> string option \<Rightarrow> bool" where
  "required_fails pv = falsy (snd pv)"

definition failed_paths :: "(string \<times> string option) list \<Rightarrow> string list" where
  "failed_paths pvs = map fst (filter required_fails pvs)"

text \<open>
  Casting the route parameter of an \<^verbatim>\<open>Item\<close> query to an ObjectId: the canonical
  form of 24 hexadecimal digits; a string that is no ObjectId is a \<^verbatim>\<open>CastError\<close>
  at the path \<^verbatim>\<open>_id\<close>.
\<close>

definition hex_val :: "char \<Rightarrow> nat option" where
  "hex_val c =
     (let n = (of_char c :: nat) in
      if 48 \<le> n \<and> n \<le> 57 then Some (n - 48)
      else if 97 \<le> n \<and> n \<le> 102 then Some (n - 87)
      else if 65 \<le> n \<and> n \<le> 70 then Some (n - 55)
      else None)"

fun hex_num :: "nat \<Rightarrow> string \<Rightarrow> nat option" where
  "hex_num acc [] = Some acc"
| "hex_num acc (c # cs) =
     (case hex_val c of None \<Rightarrow> None | Some d \<Rightarrow> hex_num (16 * acc + d) cs)"

definition cast_ObjectId :: "string \<Rightarrow> mongoose_error + oid" where
  "cast_ObjectId s =
     (if length s = 24 then
        (case hex_num 0 s of
           None \<Rightarrow> Inl (CastError s ''_id'' ''Item'')
         | Some n \<Rightarrow> Inr n)
      else Inl (CastError s ''_id'' ''Item''))"

subsection \<open>The User model\<close>

text \<open>
  \<^verbatim>\<open>User.findOne({ email })\<close>: the filter value is cast with the path's setters, so it
  is trimmed like a stored email; the first matching document or \<^verbatim>\<open>null\<close>.
\<close>

definition User_findOne :: "db \<Rightarrow> string \<Rightarrow> user option" where
  "User_findOne s email = find (\<lambda>u. u_email u = trim email) (users s)"

text \<open>
  \<^verbatim>\<open>User.create({ name, email, password })\<close>: apply the setters, validate, insert.
  The unique index on \<^verbatim>\<open>email\<close> rejects the insert with code 11000.
\<close>

definition User_create ::
  "nat \<Rightarrow> db \<Rightarrow> string option \<Rightarrow> string option \<Rightarrow> string option \<Rightarrow>
     mongoose_error + (db \<times> user)" where
  "User_create now s name email password =
     (let name' = map_option trim name;
          email' = map_option trim email;
          bad = failed_paths [(''name'', name'), (''email'', email'), (''password'', password)]
      in case (name', email', password) of
           (Some n, Some e, Some p) \<Rightarrow>
             if bad \<noteq> [] then Inl (ValidationError ''User'' bad)
             else if e \<in> set (map u_email (users s)) then
               Inl (MongoServerError 11000 (duplicate_key_message e))
             else
               (let user = \<lparr>u_id = next_oid s, u_name = n, u_email = e, u_password = p,
                            u_createdAt = now, u_updatedAt = now\<rparr>
                in Inr (s\<lparr>users := users s @ [user], next_oid := Suc (next_oid s)\<rparr>, user))
         | _ \<Rightarrow> Inl (ValidationError ''User'' bad))"

subsection \<open>The Item model\<close>

text \<open>
  \<^verbatim>\<open>Item.create({ title, description, userId })\<close>: a missing \<^verbatim>\<open>description\<close> takes the
  default \<^verbatim>\<open>""\<close>; \<^verbatim>\<open>title\<close> and \<^verbatim>\<open>description\<close> are trimmed; \<^verbatim>\<open>title\<close> and
  \<^verbatim>\<open>userId\<close> are required. Nothing looks \<^verbatim>\<open>userId\<close> up among the users.
\<close>

definition Item_create ::
  "nat \<Rightarrow> db \<Rightarrow> string option \<Rightarrow> string option \<Rightarrow> string option \<Rightarrow>
     mongoose_error + (db \<times> item)" where
  "Item_create now s title description userId =
     (let title' = map_option trim title;
          description' = (case description of None \<Rightarrow> [] | Some d \<Rightarrow> trim d);
          bad = failed_paths [(''title'', title'), (''userId'', userId)]
      in case (title', userId) of
           (Some t, Some u) \<Rightarrow>
             if bad \<noteq> [] then Inl (ValidationError ''Item'' bad)
             else
               (let item = \<lparr>i_id = next_oid s, i_title = t, i_description = description',
                            i_userId = u, i_createdAt = now, i_updatedAt = now\<rparr>
                in Inr (s\<lparr>items := items s @ [item], next_oid := Suc (next_oid s)\<rparr>, item))
         | _ \<Rightarrow> Inl (ValidationError ''Item'' bad))"

text \<open>
  \<^verbatim>\<open>Item.find({ userId }).sort({ createdAt: -1 })\<close>: \<^verbatim>\<open>userId\<close> has no setter, so the
  filter compares the stored string with the given one; the matches are sorted by
  \<^verbatim>\<open>createdAt\<close>, largest first.
\<close>

fun insert_desc :: "item \<Rightarrow> item list \<Rightarrow> item list" where
  "insert_desc x [] = [x]"
| "insert_desc x (y # ys) =
     (if i_createdAt y \<le> i_createdAt x then x # y # ys else y # insert_desc x ys)"

fun sort_desc :: "item list \<Rightarrow> item list" where
  "sort_desc [] = []"
| "sort_desc (x # xs) = insert_desc x (sort_desc xs)"

definition Item_find_sorted :: "db \<Rightarrow> string \<Rightarrow> item list" where
  "Item_find_sorted s userId = sort_desc (filter (\<lambda>i. i_userId i = userId) (items s))"

text \<open>
  \<^verbatim>\<open>Item.findByIdAndUpdate(id, { title, description }, { new: true })\<close>: the id is cast
  to an ObjectId, the update is cast with the setters of its paths (validators do not
  run on updates), the timestamps set \<^verbatim>\<open>updatedAt\<close>; the result is the document after
  the update, or \<^verbatim>\<open>null\<close> when no document has that id.
\<close>

definition apply_update :: "nat \<Rightarrow> string \<Rightarrow> string \<Rightarrow> item \<Rightarrow> item" where
  "apply_update now title description i =
     i\<lparr>i_title := trim title, i_description := trim description, i_updatedAt := now\<rparr>"

definition Item_findByIdAndUpdate ::
  "nat \<Rightarrow> db \<Rightarrow> string \<Rightarrow> string \<Rightarrow> string \<Rightarrow> mongoose_error + (db \<times> item option)" where
  "Item_findByIdAndUpdate now s iid title description =
     (case cast_ObjectId iid of
        Inl err \<Rightarrow> Inl err
      | Inr k \<Rightarrow>
         (case find (\<lambda>i. i_id i = k) (items s) of
            None \<Rightarrow> Inr (s, None)
          | Some old \<Rightarrow>
              Inr (s\<lparr>items := map (\<lambda>i. if i_id i = k then apply_update now title description i
                                         else i) (items s)\<rparr>,
                   Some (apply_update now title description old))))"

text \<open>\<^verbatim>\<open>Item.findByIdAndDelete(id)\<close>: the removed document, or \<^verbatim>\<open>null\<close>.\<close>

definition Item_findByIdAndDelete :: "db \<Rightarrow> string \<Rightarrow> mongoose_error + (db \<times> item option)" where
  "Item_findByIdAndDelete s iid =
     (case cast_ObjectId iid of
        Inl err \<Rightarrow> Inl err
      | Inr k \<Rightarrow>
         (case find (\<lambda>i. i_id i = k) (items s) of
            None \<Rightarrow> Inr (s, None)
          | Some old \<Rightarrow> Inr (s\<lparr>items := filter (\<lambda>i. i_id i \<noteq> k) (items s)\<rparr>, Some old)))"

section \<open>Serialisation\<close>

text \<open>
  \<^verbatim>\<open>res.json\<close> of a Mongoose document writes the stored paths under their schema
  names, with \<^verbatim>\<open>_id\<close> and the version key \<^verbatim>\<open>__v\<close> (0 for a document that was never
  saved again).
\<close>

definition item_toJSON :: "item \<Rightarrow> json" where
  "item_toJSON i =
     JObj [(''_id'', JId (i_id i)),
           (''title'', JStr (i_title i)),
           (''description'', JStr (i_description i)),
           (''userId'', JStr (i_userId i)),
           (''createdAt'', JDate (i_createdAt i)),
           (''updatedAt'', JDate (i_updatedAt i)),
           (''__v'', JNum 0)]"

definition error_body :: "string \<Rightarrow> json" where
  "error_body msg = JObj [(''status'', JStr ''error''), (''message'', JStr msg)]"

definition user_body :: "user \<Rightarrow> json" where
  "user_body u =
     JObj [(''status'', JStr ''Success''),
           (''userId'', JId (u_id u)),
           (''name'', JStr (u_name u)),
           (''email'', JStr (u_email u))]"

text \<open>\<^verbatim>\<open>err.message || fallback\<close>.\<close>

definition message_or :: "mongoose_error \<Rightarrow> string \<Rightarrow> string" where
  "message_or err fallback = (if err_message err = [] then fallback else err_message err)"

section \<open>The request handlers\<close>

text \<open>
  Each handler takes the time of the request and the database, and returns the database
  after the request with the response. The \<^verbatim>\<open>catch\<close> block of a handler is the
  \<open>Inl\<close> branch of the Mongoose call inside its \<^verbatim>\<open>try\<close>.
\<close>

text \<open>\<^verbatim>\<open>POST /register\<close>, lines 389-424.\<close>

definition register_catch :: "mongoose_error \<Rightarrow> response" where
  "register_catch err =
     (if err_code err = Some 11000 then (409, error_body ''Email already exists'')
      else (500, error_body ''Error registering user''))"

definition register :: "nat \<Rightarrow> db \<Rightarrow> body \<Rightarrow> db \<times> response" where
  "register now s b =
     (let name = b ''name''; email = b ''email''; password = b ''password'' in
      if falsy name \<or> falsy email \<or> falsy password then
        (s, 400, error_body ''All fields are required'')
      else
        (case email of
           None \<Rightarrow> (s, 400, error_body ''All fields are required'')
         | Some e \<Rightarrow>
            (case User_findOne s e of
               Some existing \<Rightarrow> (s, 409, error_body ''Email already exists'')
             | None \<Rightarrow>
                (case User_create now s name email password of
                   Inr (s', user) \<Rightarrow> (s', 201, user_body user)
                 | Inl err \<Rightarrow> (s, register_catch err)))))"

text \<open>
  The handler waits twice, for \<^verbatim>\<open>User.findOne\<close> (line 400) and for
  \<^verbatim>\<open>User.create\<close> (line 407), and the server may serve other requests in between.
  \<open>register_steps\<close> is the same handler with the database each of the two calls
  meets: \<open>s\<close> at the lookup and \<open>s'\<close> at the insert. \<open>register\<close> is the case
  where nothing happens in between.
\<close>

definition register_steps :: "nat \<Rightarrow> db \<Rightarrow> db \<Rightarrow> body \<Rightarrow> db \<times> response" where
  "register_steps now s s' b =
     (let name = b ''name''; email = b ''email''; password = b ''password'' in
      if falsy name \<or> falsy email \<or> falsy password then
        (s, 400, error_body ''All fields are required'')
      else
        (case email of
           None \<Rightarrow> (s, 400, error_body ''All fields are required'')
         | Some e \<Rightarrow>
            (case User_findOne s e of
               Some existing \<Rightarrow> (s, 409, error_body ''Email already exists'')
             | None \<Rightarrow>
                (case User_create now s' name email password of
                   Inr (s'', user) \<Rightarrow> (s'', 201, user_body user)
                 | Inl err \<Rightarrow> (s', register_catch err)))))"

text \<open>\<^verbatim>\<open>POST /login\<close>, lines 428-462.\<close>

definition login :: "db \<Rightarrow> body \<Rightarrow> response" where
  "login s b =
     (let email = b ''email''; password = b ''password'' in
      if falsy email \<or> falsy password then
        (400, error_body ''Email and password are required'')
      else
        (case (email, password) of
           (Some e, Some p) \<Rightarrow>
             (case User_findOne s e of
                None \<Rightarrow> (404, error_body ''User not found'')
              | Some user \<Rightarrow>
                  if u_password user \<noteq> p then (401, error_body ''Incorrect password'')
                  else (200, user_body user))
         | _ \<Rightarrow> (400, error_body ''Email and password are required'')))"

text \<open>\<^verbatim>\<open>POST /items\<close>, lines 470-493.\<close>

definition create_item :: "nat \<Rightarrow> db \<Rightarrow> body \<Rightarrow> db \<times> response" where
  "create_item now s b =
     (let title = b ''title''; description = b ''description''; userId = b ''userId'' in
      if falsy title \<or> falsy userId then
        (s, 400, error_body ''Title and userId are required'')
      else
        (case Item_create now s title description userId of
           Inr (s', item) \<Rightarrow>
             (s', 201, JObj [(''status'', JStr ''Success''), (''item'', item_toJSON item)])
         | Inl err \<Rightarrow> (s, 500, error_body (message_or err ''Error creating item''))))"

text \<open>\<^verbatim>\<open>GET /items/:userId\<close>, lines 497-511.\<close>

definition list_items :: "db \<Rightarrow> string \<Rightarrow> response" where
  "list_items s userId = (200, JArr (map item_toJSON (Item_find_sorted s userId)))"

text \<open>\<^verbatim>\<open>PUT /items/:id\<close>, lines 515-540.\<close>

definition update_item :: "nat \<Rightarrow> db \<Rightarrow> string \<Rightarrow> body \<Rightarrow> db \<times> response" where
  "update_item now s iid b =
     (let title = b ''title''; description = b ''description'' in
      if falsy title \<or> falsy description then
        (s, 400, error_body ''Title and description are required'')
      else
        (case (title, description) of
           (Some t, Some d) \<Rightarrow>
             (case Item_findByIdAndUpdate now s iid t d of
                Inl err \<Rightarrow> (s, 500, error_body (message_or err ''Error updating item''))
              | Inr (s', None) \<Rightarrow> (s', 404, error_body ''Item not found'')
              | Inr (s', Some item) \<Rightarrow>
                  (s', 200, JObj [(''status'', JStr ''Success''), (''item'', item_toJSON item)]))
         | _ \<Rightarrow> (s, 400, error_body ''Title and description are required'')))"

text \<open>\<^verbatim>\<open>DELETE /items/:id\<close>, lines 544-563.\<close>

definition delete_item :: "db \<Rightarrow> string \<Rightarrow> db \<times> response" where
  "delete_item s iid =
     (case Item_findByIdAndDelete s iid of
        Inl err \<Rightarrow> (s, 500, error_body (message_or err ''Error deleting item''))
      | Inr (s', None) \<Rightarrow> (s', 404, error_body ''Item not found'')
      | Inr (s', Some deleted) \<Rightarrow>
          (s', 200, JObj [(''status'', JStr ''Success''), (''message'', JStr ''Item deleted'')]))"

section \<open>Requests in sequence\<close>

text \<open>
  The routes of the application (\<^verbatim>\<open>app.post\<close>, \<^verbatim>\<open>app.get\<close>, \<^verbatim>\<open>app.put\<close>,
  \<^verbatim>\<open>app.delete\<close>): a request names its route, with the route parameter and the body
  the handler reads. Login and the listing only read the database.
\<close>

datatype request =
    Register body
  | Login body
  | CreateItem body
  | ListItems string
  | UpdateItem string body
  | DeleteItem string

fun handle :: "nat \<Rightarrow> db \<Rightarrow> request \<Rightarrow> db \<times> response" where
  "handle now s (Register b) = register now s b"
| "handle now s (Login b) = (s, login s b)"
| "handle now s (CreateItem b) = create_item now s b"
| "handle now s (ListItems userId) = (s, list_items s userId)"
| "handle now s (UpdateItem iid b) = update_item now s iid b"
| "handle now s (DeleteItem iid) = delete_item s iid"

text \<open>The database after a sequence of requests, each with the time it arrived.\<close>

fun run :: "db \<Rightarrow> (nat \<times> request) list \<Rightarrow> db" where
  "run s [] = s"
| "run s (q # qs) = run (fst (handle (fst q) s (snd q))) qs"

section \<open>Reading responses and states\<close>

fun field :: "json \<Rightarrow> string \<Rightarrow> json option" where
  "field (JObj kvs) k = map_of kvs k"
| "field _ k = None"

fun keys :: "json \<Rightarrow> string list" where
  "keys (JObj kvs) = map fst kvs"
| "keys _ = []"

text \<open>
  The item objects of a response: the elements of a bare array, or the \<^verbatim>\<open>item\<close> field
  of an envelope.
\<close>

definition item_objects :: "response \<Rightarrow> json list" where
  "item_objects r =
     (case snd r of
        JArr xs \<Rightarrow> xs
      | j \<Rightarrow> (case field j ''item'' of Some i \<Rightarrow> [i] | None \<Rightarrow> []))"

definition status :: "response \<Rightarrow> nat" where
  "status r = fst r"

definition emails :: "db \<Rightarrow> string list" where
  "emails s = map u_email (users s)"

definition item_ids :: "db \<Rightarrow> oid list" where
  "item_ids s = map i_id (items s)"

text \<open>No two users share an email.\<close>

definition emails_unique :: "db \<Rightarrow> bool" where
  "emails_unique s = distinct (emails s)"

text \<open>
  Every stored email passed the \<^verbatim>\<open>required\<close> validator and is as the \<^verbatim>\<open>trim\<close>
  setter leaves it.
\<close>

definition emails_trimmed :: "db \<Rightarrow> bool" where
  "emails_trimmed s = list_all (\<lambda>e. e \<noteq> [] \<and> trim e = e) (emails s)"

text \<open>Every ObjectId of an item was handed out before.\<close>

definition ids_below :: "db \<Rightarrow> bool" where
  "ids_below s = list_all (\<lambda>k. k < next_oid s) (item_ids s)"

text \<open>An ObjectId that was handed out and is not the id of an item.\<close>

definition retired :: "oid \<Rightarrow> db \<Rightarrow> bool" where
  "retired k s = (k < next_oid s \<and> k \<notin> set (item_ids s))"

text \<open>The items owned by \<open>owner\<close>, in storage order.\<close>

definition owned_by :: "string \<Rightarrow> db \<Rightarrow> item list" where
  "owned_by owner s = filter (\<lambda>i. i_userId i = owner) (items s)"

definition newest_first :: "item list \<Rightarrow> bool" where
  "newest_first xs = sorted_wrt (\<lambda>a b. i_createdAt b \<le> i_createdAt a) xs"

definition only_ws :: "string \<Rightarrow> bool" where
  "only_ws s = list_all is_ws s"

section \<open>Trimming\<close>

lemma trim_Nil: "trim [] = []" by (simp add: trim_def)

lemma trim_nonempty: "trim s \<noteq> [] \<Longrightarrow> s \<noteq> []" by (auto simp: trim_def)

lemma rev_dropWhile_rev_prefix:
  "rev (dropWhile P (rev t)) @ rev (takeWhile P (rev t)) = t"
proof -
  have "rev (takeWhile P (rev t) @ dropWhile P (rev t)) = t" by simp
  then show ?thesis by (simp only: rev_append)
qed

lemma trim_idem: "trim (trim s) = trim s"
proof -
  define t where "t = dropWhile is_ws s"
  define u where "u = rev (dropWhile is_ws (rev t))"
  have tail_ok: "dropWhile is_ws (rev u) = rev u"
    by (simp add: u_def)
  have head_ok: "dropWhile is_ws u = u"
  proof (cases "u = []")
    case True
    then show ?thesis by simp
  next
    case False
    have ut: "u @ rev (takeWhile is_ws (rev t)) = t"
      unfolding u_def by (rule rev_dropWhile_rev_prefix)
    with False have "hd u = hd t" by (metis hd_append2)
    moreover from ut False have "t \<noteq> []" by auto
    then have "\<not> is_ws (hd t)" unfolding t_def by (rule hd_dropWhile)
    ultimately show ?thesis using False by (simp add: dropWhile_eq_self_iff)
  qed
  have "trim s = u" by (simp add: trim_def t_def u_def)
  moreover have "trim u = u" by (simp add: trim_def head_ok tail_ok)
  ultimately show ?thesis by simp
qed


section \<open>Registration and login\<close>

lemma User_findOne_absent:
  "trim e \<notin> set (emails s) \<Longrightarrow> User_findOne s e = None"
  by (force simp: User_findOne_def emails_def find_None_iff)

lemma find_snoc:
  "find P (xs @ [x]) =
     (case find P xs of None \<Rightarrow> (if P x then Some x else None) | Some y \<Rightarrow> Some y)"
  by (induction xs) auto

lemma User_findOne_appended:
  "trim e \<notin> set (emails s) \<Longrightarrow> u_email u = trim e \<Longrightarrow>
   User_findOne (s\<lparr>users := users s @ [u], next_oid := k\<rparr>) e = Some u"
proof -
  assume a: "trim e \<notin> set (emails s)" and b: "u_email u = trim e"
  from a have "find (\<lambda>u. u_email u = trim e) (users s) = None"
    by (force simp: emails_def find_None_iff)
  with b show ?thesis by (simp add: User_findOne_def find_snoc)
qed

lemma User_create_ok:
  assumes "trim n \<noteq> []" "trim e \<noteq> []" "p \<noteq> []" "trim e \<notin> set (emails s)"
  shows "User_create now s (Some n) (Some e) (Some p) =
     Inr (s\<lparr>users := users s @ [\<lparr>u_id = next_oid s, u_name = trim n, u_email = trim e,
                 u_password = p, u_createdAt = now, u_updatedAt = now\<rparr>],
             next_oid := Suc (next_oid s)\<rparr>,
          \<lparr>u_id = next_oid s, u_name = trim n, u_email = trim e,
                 u_password = p, u_createdAt = now, u_updatedAt = now\<rparr>)"
  using assms
  by (simp add: User_create_def failed_paths_def required_fails_def emails_def Let_def)

lemma register_ok:
  assumes "b ''name'' = Some n" "b ''email'' = Some e" "b ''password'' = Some p"
    and "trim n \<noteq> []" "trim e \<noteq> []" "p \<noteq> []" "trim e \<notin> set (emails s)"
  shows "register now s b =
     (s\<lparr>users := users s @ [\<lparr>u_id = next_oid s, u_name = trim n, u_email = trim e,
                 u_password = p, u_createdAt = now, u_updatedAt = now\<rparr>],
             next_oid := Suc (next_oid s)\<rparr>,
      201,
      user_body \<lparr>u_id = next_oid s, u_name = trim n, u_email = trim e,
                 u_password = p, u_createdAt = now, u_updatedAt = now\<rparr>)"
proof -
  from assms have ne: "n \<noteq> []" "e \<noteq> []" by (auto dest: trim_nonempty)
  show ?thesis
    using assms ne
    by (simp add: register_def Let_def User_findOne_absent User_create_ok)
qed

text \<open>
  C1 (as amended). The schema trims \<^verbatim>\<open>name\<close> and \<^verbatim>\<open>email\<close>. For every name and
  email that are non-empty after trimming and every non-empty password, when the
  trimmed email is not registered yet, Register answers 201 and a following Login with
  the same email and password answers 200 with the same \<^verbatim>\<open>userId\<close>; the name and the
  email of both answers are the trimmed name and the trimmed email given to Register.
\<close>

theorem register_then_login:
  assumes "b ''name'' = Some n" "b ''email'' = Some e" "b ''password'' = Some p"
    and "trim n \<noteq> []" "trim e \<noteq> []" "p \<noteq> []" "trim e \<notin> set (emails s)"
    and "c ''email'' = Some e" "c ''password'' = Some p"
  shows "snd (register now s b) =
           (201, JObj [(''status'', JStr ''Success''), (''userId'', JId (next_oid s)),
                       (''name'', JStr (trim n)), (''email'', JStr (trim e))])
       \<and> login (fst (register now s b)) c =
           (200, JObj [(''status'', JStr ''Success''), (''userId'', JId (next_oid s)),
                       (''name'', JStr (trim n)), (''email'', JStr (trim e))])"
proof -
  from assms have ne: "e \<noteq> []" by (auto dest: trim_nonempty)
  let ?u = "\<lparr>u_id = next_oid s, u_name = trim n, u_email = trim e,
                 u_password = p, u_createdAt = now, u_updatedAt = now\<rparr>"
  have reg: "register now s b =
     (s\<lparr>users := users s @ [?u], next_oid := Suc (next_oid s)\<rparr>, 201, user_body ?u)"
    using assms(1-7) by (rule register_ok)
  have found: "User_findOne (s\<lparr>users := users s @ [?u], next_oid := Suc (next_oid s)\<rparr>) e = Some ?u"
    using assms(7) by (simp add: User_findOne_appended)
  show ?thesis
    using assms(8,9,6) ne by (simp add: reg login_def found user_body_def)
qed

text \<open>The theorem at a name with a leading space and an email with a trailing space.\<close>

theorem register_then_login_witness:
  "login (fst (register 5 empty_db
       [''name'' \<mapsto> '' Ana'', ''email'' \<mapsto> ''ana@x.com '', ''password'' \<mapsto> ''Secret123'']))
     [''email'' \<mapsto> ''ana@x.com '', ''password'' \<mapsto> ''Secret123'']
   = (200, JObj [(''status'', JStr ''Success''), (''userId'', JId 0),
                 (''name'', JStr ''Ana''), (''email'', JStr ''ana@x.com'')])"
  using register_then_login [of "[''name'' \<mapsto> '' Ana'', ''email'' \<mapsto> ''ana@x.com '', ''password'' \<mapsto> ''Secret123'']"
      "'' Ana''" "''ana@x.com ''" "''Secret123''" empty_db
      "[''email'' \<mapsto> ''ana@x.com '', ''password'' \<mapsto> ''Secret123'']" 5]
  by (simp add: trim_def is_ws_def empty_db_def emails_def)

text \<open>
  C1 as stated fails: registered with the name \<^verbatim>\<open>" Ana"\<close>, the user logs in and is
  told the name \<^verbatim>\<open>"Ana"\<close>, which is not the name that was supplied.
\<close>

theorem register_name_counterexample:
  "status (login (fst (register 0 empty_db
       [''name'' \<mapsto> '' Ana'', ''email'' \<mapsto> ''ana@x.com'', ''password'' \<mapsto> ''Secret123'']))
     [''email'' \<mapsto> ''ana@x.com'', ''password'' \<mapsto> ''Secret123'']) = 200
   \<and> field (snd (login (fst (register 0 empty_db
       [''name'' \<mapsto> '' Ana'', ''email'' \<mapsto> ''ana@x.com'', ''password'' \<mapsto> ''Secret123'']))
     [''email'' \<mapsto> ''ana@x.com'', ''password'' \<mapsto> ''Secret123''])) ''name'' = Some (JStr ''Ana'')
   \<and> field (snd (login (fst (register 0 empty_db
       [''name'' \<mapsto> '' Ana'', ''email'' \<mapsto> ''ana@x.com'', ''password'' \<mapsto> ''Secret123'']))
     [''email'' \<mapsto> ''ana@x.com'', ''password'' \<mapsto> ''Secret123''])) ''name'' \<noteq> Some (JStr '' Ana'')"
  by (simp add: register_def login_def User_findOne_def User_create_def failed_paths_def
      required_fails_def user_body_def status_def trim_def is_ws_def empty_db_def Let_def)

lemma find_unique:
  "distinct (map f xs) \<Longrightarrow> x \<in> set xs \<Longrightarrow> find (\<lambda>y. f y = f x) xs = Some x"
  by (induction xs) (auto simp: image_iff)

lemma User_findOne_present:
  assumes "emails_unique s" "u \<in> set (users s)" "u_email u = trim e"
  shows "User_findOne s e = Some u"
  using find_unique [of u_email "users s" u] assms
  by (simp add: User_findOne_def emails_unique_def emails_def)

lemma User_findOne_some:
  "trim e \<in> set (emails s) \<Longrightarrow> \<exists>u. User_findOne s e = Some u"
  by (cases "User_findOne s e")
     (auto simp: User_findOne_def emails_def find_None_iff)

lemma register_conflict:
  assumes "b ''name'' = Some n" "n \<noteq> []" "b ''email'' = Some e" "e \<noteq> []"
    and "b ''password'' = Some p" "p \<noteq> []" "trim e \<in> set (emails s)"
  shows "register now s b = (s, 409, error_body ''Email already exists'')"
proof -
  from assms(7) obtain u where "User_findOne s e = Some u"
    using User_findOne_some by blast
  with assms show ?thesis by (simp add: register_def)
qed

lemma User_create_duplicate:
  assumes "trim n \<noteq> []" "trim e \<noteq> []" "p \<noteq> []" "trim e \<in> set (emails s)"
  shows "User_create now s (Some n) (Some e) (Some p) =
           Inl (MongoServerError 11000 (duplicate_key_message (trim e)))"
  using assms
  by (simp add: User_create_def failed_paths_def required_fails_def emails_def Let_def)

lemma User_create_users:
  assumes "User_create now s name email password = Inr (s', u)"
  shows "users s' = users s @ [u] \<and> u_email u \<notin> set (emails s) \<and> trim (u_email u) = u_email u
         \<and> u_email u \<noteq> [] \<and> items s' = items s \<and> next_oid s' = Suc (next_oid s)"
  using assms
  by (auto simp: User_create_def Let_def emails_def trim_idem failed_paths_def required_fails_def
           split: option.splits if_splits)

lemma register_effect:
  "fst (register now s b) = s \<or>
   (\<exists>u. users (fst (register now s b)) = users s @ [u] \<and> u_email u \<notin> set (emails s)
        \<and> trim (u_email u) = u_email u \<and> u_email u \<noteq> []
        \<and> items (fst (register now s b)) = items s
        \<and> next_oid (fst (register now s b)) = Suc (next_oid s))"
proof (cases "\<exists>s' u. User_create now s (b ''name'') (b ''email'') (b ''password'') = Inr (s', u)")
  case True
  then obtain s' u where c: "User_create now s (b ''name'') (b ''email'') (b ''password'') = Inr (s', u)"
    by blast
  from User_create_users [OF c] c show ?thesis
    by (auto simp: register_def Let_def split: option.splits)
next
  case False
  then show ?thesis
    by (auto simp: register_def Let_def split: option.splits sum.splits)
qed

lemma Item_create_effect:
  assumes "Item_create now s title description userId = Inr (s', it)"
  shows "s' = s\<lparr>items := items s @ [it], next_oid := Suc (next_oid s)\<rparr>
       \<and> i_id it = next_oid s \<and> userId = Some (i_userId it)"
  using assms
  by (auto simp: Item_create_def Let_def split: option.splits if_splits)

lemma create_item_effect:
  "fst (create_item now s b) = s \<or>
   (\<exists>it. fst (create_item now s b) = s\<lparr>items := items s @ [it], next_oid := Suc (next_oid s)\<rparr>
        \<and> i_id it = next_oid s \<and> b ''userId'' = Some (i_userId it))"
proof (cases "Item_create now s (b ''title'') (b ''description'') (b ''userId'')")
  case (Inl err)
  then show ?thesis by (simp add: create_item_def Let_def)
next
  case (Inr r)
  then obtain s' it where c: "Item_create now s (b ''title'') (b ''description'') (b ''userId'') = Inr (s', it)"
    by (cases r) auto
  from Item_create_effect [OF c] c show ?thesis
    by (auto simp: create_item_def Let_def)
qed

lemma Item_findByIdAndUpdate_effect:
  assumes "Item_findByIdAndUpdate now s iid t d = Inr (s', r)"
  shows "users s' = users s \<and> next_oid s' = next_oid s \<and> item_ids s' = item_ids s"
proof -
  have "map i_id (map (\<lambda>i. if i_id i = k then apply_update now t d i else i) xs) = map i_id xs"
    for k xs
    by (induction xs) (auto simp: apply_update_def)
  with assms show ?thesis
    by (auto simp: Item_findByIdAndUpdate_def item_ids_def split: sum.splits option.splits)
qed

lemma update_item_effect:
  "users (fst (update_item now s iid b)) = users s
   \<and> next_oid (fst (update_item now s iid b)) = next_oid s
   \<and> item_ids (fst (update_item now s iid b)) = item_ids s"
proof (cases "falsy (b ''title'') \<or> falsy (b ''description'')")
  case True
  then show ?thesis by (simp add: update_item_def Let_def)
next
  case False
  then obtain t d where td: "b ''title'' = Some t" "b ''description'' = Some d"
    by (cases "b ''title''"; cases "b ''description''") auto
  show ?thesis
  proof (cases "Item_findByIdAndUpdate now s iid t d")
    case (Inl err)
    with td False show ?thesis by (simp add: update_item_def Let_def)
  next
    case (Inr r)
    then obtain s' x where c: "Item_findByIdAndUpdate now s iid t d = Inr (s', x)"
      by (cases r) auto
    from Item_findByIdAndUpdate_effect [OF c] c td False show ?thesis
      by (cases x) (simp_all add: update_item_def Let_def)
  qed
qed

lemma Item_findByIdAndDelete_effect:
  assumes "Item_findByIdAndDelete s iid = Inr (s', r)"
  shows "users s' = users s \<and> next_oid s' = next_oid s \<and> set (item_ids s') \<subseteq> set (item_ids s)"
  using assms
  by (auto simp: Item_findByIdAndDelete_def item_ids_def split: sum.splits option.splits)

lemma delete_item_effect:
  "users (fst (delete_item s iid)) = users s
   \<and> next_oid (fst (delete_item s iid)) = next_oid s
   \<and> set (item_ids (fst (delete_item s iid))) \<subseteq> set (item_ids s)"
proof (cases "Item_findByIdAndDelete s iid")
  case (Inl err)
  then show ?thesis by (simp add: delete_item_def)
next
  case (Inr r)
  then obtain s' x where c: "Item_findByIdAndDelete s iid = Inr (s', x)"
    by (cases r) auto
  from Item_findByIdAndDelete_effect [OF c] c show ?thesis
    by (cases x) (simp_all add: delete_item_def)
qed

lemma handle_users:
  "users (fst (handle now s q)) = users s \<or>
   (\<exists>u. users (fst (handle now s q)) = users s @ [u] \<and> u_email u \<notin> set (emails s)
        \<and> trim (u_email u) = u_email u \<and> u_email u \<noteq> [])"
proof (cases q)
  case (Register b)
  with register_effect [of now s b] show ?thesis by auto
next
  case (CreateItem b)
  with create_item_effect [of now s b] show ?thesis by auto
next
  case (UpdateItem iid b)
  with update_item_effect [of now s iid b] show ?thesis by simp
next
  case (DeleteItem iid)
  with delete_item_effect [of s iid] show ?thesis by simp
qed simp_all

lemma handle_emails_unique:
  "emails_unique s \<Longrightarrow> emails_unique (fst (handle now s q))"
  using handle_users [of now s q]
  by (auto simp: emails_unique_def emails_def)

lemma handle_emails_trimmed:
  "emails_trimmed s \<Longrightarrow> emails_trimmed (fst (handle now s q))"
  using handle_users [of now s q]
  by (auto simp: emails_trimmed_def emails_def list_all_iff)

lemma run_emails_unique:
  "emails_unique s \<Longrightarrow> emails_unique (run s qs)"
  by (induction qs arbitrary: s) (simp_all add: handle_emails_unique)

lemma run_emails_trimmed:
  "emails_trimmed s \<Longrightarrow> emails_trimmed (run s qs)"
  by (induction qs arbitrary: s) (simp_all add: handle_emails_trimmed)

lemma empty_db_emails: "emails_unique empty_db" "emails_trimmed empty_db"
  by (simp_all add: emails_unique_def emails_trimmed_def emails_def empty_db_def)


lemma handle_retired:
  "retired k s \<Longrightarrow> retired k (fst (handle now s q))"
proof (cases q)
  case (Register b)
  with register_effect [of now s b] show "retired k s \<Longrightarrow> ?thesis"
    by (auto simp: retired_def item_ids_def)
next
  case (CreateItem b)
  with create_item_effect [of now s b] show "retired k s \<Longrightarrow> ?thesis"
    by (auto simp: retired_def item_ids_def)
next
  case (UpdateItem iid b)
  with update_item_effect [of now s iid b] show "retired k s \<Longrightarrow> ?thesis"
    by (simp add: retired_def)
next
  case (DeleteItem iid)
  with delete_item_effect [of s iid] show "retired k s \<Longrightarrow> ?thesis"
    by (auto simp: retired_def)
qed (simp_all add: retired_def)

lemma run_retired:
  "retired k s \<Longrightarrow> retired k (run s qs)"
  by (induction qs arbitrary: s) (simp_all add: handle_retired)

lemma handle_ids_below:
  "ids_below s \<Longrightarrow> ids_below (fst (handle now s q))"
proof (cases q)
  case (Register b)
  with register_effect [of now s b] show "ids_below s \<Longrightarrow> ?thesis"
    by (auto simp: ids_below_def item_ids_def list_all_iff less_Suc_eq)
next
  case (CreateItem b)
  with create_item_effect [of now s b] show "ids_below s \<Longrightarrow> ?thesis"
    by (auto simp: ids_below_def item_ids_def list_all_iff less_Suc_eq)
next
  case (UpdateItem iid b)
  with update_item_effect [of now s iid b] show "ids_below s \<Longrightarrow> ?thesis"
    by (simp add: ids_below_def)
next
  case (DeleteItem iid)
  with delete_item_effect [of s iid] show "ids_below s \<Longrightarrow> ?thesis"
    by (auto simp: ids_below_def list_all_iff)
qed (simp_all add: ids_below_def)

lemma run_ids_below:
  "ids_below s \<Longrightarrow> ids_below (run s qs)"
  by (induction qs arbitrary: s) (simp_all add: handle_ids_below)

lemma register_steps_same: "register_steps now s s b = register now s b"
  by (simp add: register_steps_def register_def)

lemma register_steps_effect:
  "fst (register_steps now s0 s b) = s0 \<or> fst (register_steps now s0 s b) = s \<or>
   (\<exists>u. users (fst (register_steps now s0 s b)) = users s @ [u]
        \<and> u_email u \<notin> set (emails s))"
proof (cases "\<exists>s' u. User_create now s (b ''name'') (b ''email'') (b ''password'') = Inr (s', u)")
  case True
  then obtain s' u where c: "User_create now s (b ''name'') (b ''email'') (b ''password'') = Inr (s', u)"
    by blast
  from User_create_users [OF c] c show ?thesis
    by (auto simp: register_steps_def Let_def split: option.splits)
next
  case False
  then show ?thesis
    by (auto simp: register_steps_def Let_def split: option.splits sum.splits)
qed

lemma register_steps_emails_unique:
  "emails_unique s0 \<Longrightarrow> emails_unique s \<Longrightarrow> emails_unique (fst (register_steps now s0 s b))"
  using register_steps_effect [of now s0 s b]
  by (auto simp: emails_unique_def emails_def)

lemma register_steps_race:
  assumes "b ''name'' = Some n" "trim n \<noteq> []" "b ''email'' = Some e" "trim e \<noteq> []"
    and "b ''password'' = Some p" "p \<noteq> []"
    and "trim e \<notin> set (emails s0)" "trim e \<in> set (emails s)"
  shows "register_steps now s0 s b = (s, 409, error_body ''Email already exists'')"
proof -
  from assms have ne: "n \<noteq> []" "e \<noteq> []" by (auto dest: trim_nonempty)
  have c: "User_create now s (Some n) (Some e) (Some p) =
             Inl (MongoServerError 11000 (duplicate_key_message (trim e)))"
    using assms(2,4,6,8) by (rule User_create_duplicate)
  show ?thesis
    using assms(1,3,5,6,7) ne c
    by (simp add: register_steps_def Let_def User_findOne_absent register_catch_def)
qed

text \<open>
  C3. In every state whose stored emails are unique (and trimmed, as the schema leaves
  them in every state the handlers reach): Register with an email that is already
  stored answers 409 \<^verbatim>\<open>Email already exists\<close> whatever the (non-empty) name and
  password, and inserts nothing. When another registration of the same email slips in
  between the lookup and the insert, so that the lookup finds nothing in \<open>s0\<close> and the
  insert meets \<open>s\<close>, \<^verbatim>\<open>User.create\<close> throws the duplicate key error 11000 of the
  unique index and the handler answers the same 409, inserting nothing. Hence the
  emails stay unique after the handler, also across such an interleaving, and after any
  sequence of requests, from this state and from the empty database.
\<close>

theorem email_uniqueness_invariant:
  assumes "emails_unique s" "emails_trimmed s"
  shows "(b ''name'' = Some n \<and> n \<noteq> [] \<and> b ''email'' = Some e \<and> e \<in> set (emails s)
            \<and> b ''password'' = Some p \<and> p \<noteq> []
          \<longrightarrow> register now s b = (s, 409, error_body ''Email already exists''))
       \<and> register_steps now s s b = register now s b
       \<and> (b ''name'' = Some n \<and> trim n \<noteq> [] \<and> b ''email'' = Some e
            \<and> trim e \<notin> set (emails s0) \<and> trim e \<in> set (emails s)
            \<and> b ''password'' = Some p \<and> p \<noteq> []
          \<longrightarrow> (\<exists>err. User_create now s (b ''name'') (b ''email'') (b ''password'') = Inl err
                    \<and> err_code err = Some 11000)
            \<and> register_steps now s0 s b = (s, 409, error_body ''Email already exists''))
       \<and> (emails_unique s0 \<longrightarrow> emails_unique (fst (register_steps now s0 s b)))
       \<and> emails_unique (run s qs) \<and> emails_trimmed (run s qs)
       \<and> emails_unique (run empty_db qs) \<and> emails_trimmed (run empty_db qs)"
proof (intro conjI impI)
  assume a: "b ''name'' = Some n \<and> n \<noteq> [] \<and> b ''email'' = Some e \<and> e \<in> set (emails s)
            \<and> b ''password'' = Some p \<and> p \<noteq> []"
  with assms(2) have "e \<noteq> []" "trim e = e"
    by (auto simp: emails_trimmed_def list_all_iff)
  with a show "register now s b = (s, 409, error_body ''Email already exists'')"
    by (simp add: register_conflict)
next
  show "register_steps now s s b = register now s b" by (rule register_steps_same)
next
  assume a: "b ''name'' = Some n \<and> trim n \<noteq> [] \<and> b ''email'' = Some e
            \<and> trim e \<notin> set (emails s0) \<and> trim e \<in> set (emails s)
            \<and> b ''password'' = Some p \<and> p \<noteq> []"
  with assms(2) have ne: "trim e \<noteq> []"
    by (auto simp: emails_trimmed_def list_all_iff)
  from a ne have "User_create now s (Some n) (Some e) (Some p) =
             Inl (MongoServerError 11000 (duplicate_key_message (trim e)))"
    by (simp add: User_create_duplicate)
  with a show "\<exists>err. User_create now s (b ''name'') (b ''email'') (b ''password'') = Inl err
                    \<and> err_code err = Some 11000"
    by simp
  from a ne show "register_steps now s0 s b = (s, 409, error_body ''Email already exists'')"
    by (simp add: register_steps_race)
next
  assume "emails_unique s0"
  then show "emails_unique (fst (register_steps now s0 s b))"
    using assms(1) by (rule register_steps_emails_unique)
next
  show "emails_unique (run s qs)" using assms(1) by (rule run_emails_unique)
next
  show "emails_trimmed (run s qs)" using assms(2) by (rule run_emails_trimmed)
next
  show "emails_unique (run empty_db qs)" by (simp add: run_emails_unique empty_db_emails)
next
  show "emails_trimmed (run empty_db qs)" by (simp add: run_emails_trimmed empty_db_emails)
qed

text \<open>
  The theorem at a database holding one user, \<^verbatim>\<open>bo@x.com\<close>: a second registration of
  that email, first alone, then with its lookup made before Bo was stored.
\<close>

theorem email_uniqueness_invariant_witness:
  "register 2 \<lparr>users = [\<lparr>u_id = 0, u_name = ''Bo'', u_email = ''bo@x.com'', u_password = ''p'',
                         u_createdAt = 1, u_updatedAt = 1\<rparr>], items = [], next_oid = 1\<rparr>
      [''name'' \<mapsto> ''Bo2'', ''email'' \<mapsto> ''bo@x.com'', ''password'' \<mapsto> ''q'']
    = (\<lparr>users = [\<lparr>u_id = 0, u_name = ''Bo'', u_email = ''bo@x.com'', u_password = ''p'',
                         u_createdAt = 1, u_updatedAt = 1\<rparr>], items = [], next_oid = 1\<rparr>,
       409, error_body ''Email already exists'')
   \<and> register_steps 2 empty_db \<lparr>users = [\<lparr>u_id = 0, u_name = ''Bo'', u_email = ''bo@x.com'', u_password = ''p'',
                         u_createdAt = 1, u_updatedAt = 1\<rparr>], items = [], next_oid = 1\<rparr>
      [''name'' \<mapsto> ''Bo2'', ''email'' \<mapsto> ''bo@x.com'', ''password'' \<mapsto> ''q'']
    = (\<lparr>users = [\<lparr>u_id = 0, u_name = ''Bo'', u_email = ''bo@x.com'', u_password = ''p'',
                         u_createdAt = 1, u_updatedAt = 1\<rparr>], items = [], next_oid = 1\<rparr>,
       409, error_body ''Email already exists'')
   \<and> emails_unique (run \<lparr>users = [\<lparr>u_id = 0, u_name = ''Bo'', u_email = ''bo@x.com'', u_password = ''p'',
                         u_createdAt = 1, u_updatedAt = 1\<rparr>], items = [], next_oid = 1\<rparr>
        [(2, Register [''name'' \<mapsto> ''Cy'', ''email'' \<mapsto> ''cy@x.com'', ''password'' \<mapsto> ''r'']),
         (3, Register [''name'' \<mapsto> ''Bo2'', ''email'' \<mapsto> ''bo@x.com'', ''password'' \<mapsto> ''q''])])"
  using email_uniqueness_invariant [of
      "\<lparr>users = [\<lparr>u_id = 0, u_name = ''Bo'', u_email = ''bo@x.com'', u_password = ''p'',
                         u_createdAt = 1, u_updatedAt = 1\<rparr>], items = [], next_oid = 1\<rparr>"
      "[''name'' \<mapsto> ''Bo2'', ''email'' \<mapsto> ''bo@x.com'', ''password'' \<mapsto> ''q'']"
      "''Bo2''" "''bo@x.com''" "''q''" 2 empty_db
      "[(2, Register [''name'' \<mapsto> ''Cy'', ''email'' \<mapsto> ''cy@x.com'', ''password'' \<mapsto> ''r'']),
         (3, Register [''name'' \<mapsto> ''Bo2'', ''email'' \<mapsto> ''bo@x.com'', ''password'' \<mapsto> ''q''])]"]
  by (simp add: emails_unique_def emails_trimmed_def emails_def trim_def is_ws_def empty_db_def)

text \<open>
  C4 (as amended). The email of a login is compared after trimming. If the email or the
  password is missing or empty, Login answers 400; otherwise, if no user has the
  trimmed email, 404; otherwise, if the stored password of the user with the trimmed
  email differs from the supplied one, 401; otherwise 200 with that user's
  \<^verbatim>\<open>userId\<close>, \<^verbatim>\<open>name\<close> and \<^verbatim>\<open>email\<close>.
\<close>

theorem login_taxonomy:
  assumes "emails_unique s"
  shows "(falsy (b ''email'') \<or> falsy (b ''password'')
          \<longrightarrow> login s b = (400, error_body ''Email and password are required''))
       \<and> (b ''email'' = Some e \<and> e \<noteq> [] \<and> b ''password'' = Some p \<and> p \<noteq> [] \<longrightarrow>
            (trim e \<notin> set (emails s) \<longrightarrow> login s b = (404, error_body ''User not found''))
          \<and> (u \<in> set (users s) \<and> u_email u = trim e \<and> u_password u \<noteq> p
               \<longrightarrow> login s b = (401, error_body ''Incorrect password''))
          \<and> (u \<in> set (users s) \<and> u_email u = trim e \<and> u_password u = p
               \<longrightarrow> login s b =
                 (200, JObj [(''status'', JStr ''Success''), (''userId'', JId (u_id u)),
                             (''name'', JStr (u_name u)), (''email'', JStr (u_email u))])))"
proof (intro conjI impI)
  assume "falsy (b ''email'') \<or> falsy (b ''password'')"
  then show "login s b = (400, error_body ''Email and password are required'')"
    by (simp add: login_def)
next
  assume a: "b ''email'' = Some e \<and> e \<noteq> [] \<and> b ''password'' = Some p \<and> p \<noteq> []"
    and "trim e \<notin> set (emails s)"
  then show "login s b = (404, error_body ''User not found'')"
    by (simp add: login_def User_findOne_absent)
next
  assume a: "b ''email'' = Some e \<and> e \<noteq> [] \<and> b ''password'' = Some p \<and> p \<noteq> []"
    and u: "u \<in> set (users s) \<and> u_email u = trim e \<and> u_password u \<noteq> p"
  from assms u have "User_findOne s e = Some u" by (simp add: User_findOne_present)
  with a u show "login s b = (401, error_body ''Incorrect password'')"
    by (simp add: login_def)
next
  assume a: "b ''email'' = Some e \<and> e \<noteq> [] \<and> b ''password'' = Some p \<and> p \<noteq> []"
    and u: "u \<in> set (users s) \<and> u_email u = trim e \<and> u_password u = p"
  from assms u have "User_findOne s e = Some u" by (simp add: User_findOne_present)
  with a u show "login s b =
                 (200, JObj [(''status'', JStr ''Success''), (''userId'', JId (u_id u)),
                             (''name'', JStr (u_name u)), (''email'', JStr (u_email u))])"
    by (simp add: login_def user_body_def)
qed

text \<open>The theorem at a successful login.\<close>

theorem login_taxonomy_witness:
  "login \<lparr>users = [\<lparr>u_id = 0, u_name = ''Ana'', u_email = ''ana@x.com'', u_password = ''Secret123'',
                         u_createdAt = 1, u_updatedAt = 1\<rparr>], items = [], next_oid = 1\<rparr>
      [''email'' \<mapsto> ''ana@x.com'', ''password'' \<mapsto> ''Secret123'']
    = (200, JObj [(''status'', JStr ''Success''), (''userId'', JId 0),
                  (''name'', JStr ''Ana''), (''email'', JStr ''ana@x.com'')])"
  using login_taxonomy [of
      "\<lparr>users = [\<lparr>u_id = 0, u_name = ''Ana'', u_email = ''ana@x.com'', u_password = ''Secret123'',
                         u_createdAt = 1, u_updatedAt = 1\<rparr>], items = [], next_oid = 1\<rparr>"
      "[''email'' \<mapsto> ''ana@x.com'', ''password'' \<mapsto> ''Secret123'']"
      "''ana@x.com''" "''Secret123''"
      "\<lparr>u_id = 0, u_name = ''Ana'', u_email = ''ana@x.com'', u_password = ''Secret123'',
                         u_createdAt = 1, u_updatedAt = 1\<rparr>"]
  by (simp add: emails_unique_def emails_def trim_def is_ws_def)

text \<open>
  C4 as stated fails: no user has the email \<^verbatim>\<open>" ana@x.com"\<close> (with a leading space),
  yet Login with it and the right password answers 200, not 404.
\<close>

theorem login_untrimmed_email_counterexample:
  "'' ana@x.com'' \<notin> set (emails \<lparr>users = [\<lparr>u_id = 0, u_name = ''Ana'', u_email = ''ana@x.com'',
        u_password = ''Secret123'', u_createdAt = 1, u_updatedAt = 1\<rparr>], items = [], next_oid = 1\<rparr>)
   \<and> status (login \<lparr>users = [\<lparr>u_id = 0, u_name = ''Ana'', u_email = ''ana@x.com'',
        u_password = ''Secret123'', u_createdAt = 1, u_updatedAt = 1\<rparr>], items = [], next_oid = 1\<rparr>
      [''email'' \<mapsto> '' ana@x.com'', ''password'' \<mapsto> ''Secret123'']) = 200"
  by (simp add: emails_def login_def User_findOne_def status_def trim_def is_ws_def)

section \<open>Listing\<close>

lemma mset_insert_desc: "mset (insert_desc x xs) = add_mset x (mset xs)"
  by (induction xs) auto

lemma mset_sort_desc: "mset (sort_desc xs) = mset xs"
  by (induction xs) (auto simp: mset_insert_desc)

lemma set_insert_desc: "set (insert_desc x xs) = insert x (set xs)"
  by (induction xs) auto

lemma newest_first_insert_desc:
  "newest_first xs \<Longrightarrow> newest_first (insert_desc x xs)"
  by (induction xs) (auto simp: newest_first_def set_insert_desc)

lemma newest_first_sort_desc: "newest_first (sort_desc xs)"
proof (induction xs)
  case Nil
  show ?case by (simp add: newest_first_def)
next
  case (Cons x xs)
  then show ?case by (simp add: newest_first_insert_desc)
qed

lemma owned_by_create_other:
  assumes "b ''userId'' \<noteq> Some owner"
  shows "owned_by owner (fst (create_item now s b)) = owned_by owner s"
  using create_item_effect [of now s b] assms
  by (auto simp: owned_by_def)

text \<open>
  C5. For every owner, the listing answers 200 with a bare array; its elements are
  exactly the items whose \<^verbatim>\<open>userId\<close> is the owner (as a multiset), most recently
  created first; the array is empty when there are none; and a Create for any other
  owner leaves the answer as it was.
\<close>

theorem list_by_owner:
  "list_items s owner = (200, JArr (map item_toJSON (Item_find_sorted s owner)))
   \<and> mset (Item_find_sorted s owner) = mset (owned_by owner s)
   \<and> newest_first (Item_find_sorted s owner)
   \<and> (owned_by owner s = [] \<longrightarrow> list_items s owner = (200, JArr []))
   \<and> (b ''userId'' \<noteq> Some owner
        \<longrightarrow> list_items (fst (create_item now s b)) owner = list_items s owner)"
proof (intro conjI impI)
  show "list_items s owner = (200, JArr (map item_toJSON (Item_find_sorted s owner)))"
    by (simp add: list_items_def)
  show "mset (Item_find_sorted s owner) = mset (owned_by owner s)"
    by (simp add: Item_find_sorted_def owned_by_def mset_sort_desc)
  show "newest_first (Item_find_sorted s owner)"
    by (simp add: Item_find_sorted_def newest_first_sort_desc)
next
  assume "owned_by owner s = []"
  then show "list_items s owner = (200, JArr [])"
    by (simp add: list_items_def Item_find_sorted_def owned_by_def)
next
  assume "b ''userId'' \<noteq> Some owner"
  then have "owned_by owner (fst (create_item now s b)) = owned_by owner s"
    by (rule owned_by_create_other)
  then show "list_items (fst (create_item now s b)) owner = list_items s owner"
    by (simp add: list_items_def Item_find_sorted_def owned_by_def)
qed

text \<open>The theorem at two items of one owner, after a Create for another owner.\<close>

theorem list_by_owner_witness:
  "list_items (fst (create_item 9 \<lparr>users = [], items =
        [\<lparr>i_id = 0, i_title = ''Milk'', i_description = ''2%'', i_userId = ''u1'',
          i_createdAt = 3, i_updatedAt = 3\<rparr>,
         \<lparr>i_id = 1, i_title = ''Tea'', i_description = [], i_userId = ''u1'',
          i_createdAt = 5, i_updatedAt = 5\<rparr>], next_oid = 2\<rparr>
        [''title'' \<mapsto> ''Salt'', ''userId'' \<mapsto> ''u2''])) ''u1''
   = (200, JArr (map item_toJSON
        [\<lparr>i_id = 1, i_title = ''Tea'', i_description = [], i_userId = ''u1'',
          i_createdAt = 5, i_updatedAt = 5\<rparr>,
         \<lparr>i_id = 0, i_title = ''Milk'', i_description = ''2%'', i_userId = ''u1'',
          i_createdAt = 3, i_updatedAt = 3\<rparr>]))
   \<and> list_items \<lparr>users = [], items =
        [\<lparr>i_id = 0, i_title = ''Milk'', i_description = ''2%'', i_userId = ''u1'',
          i_createdAt = 3, i_updatedAt = 3\<rparr>,
         \<lparr>i_id = 1, i_title = ''Tea'', i_description = [], i_userId = ''u1'',
          i_createdAt = 5, i_updatedAt = 5\<rparr>], next_oid = 2\<rparr> ''u3'' = (200, JArr [])"
  using list_by_owner [of "\<lparr>users = [], items =
        [\<lparr>i_id = 0, i_title = ''Milk'', i_description = ''2%'', i_userId = ''u1'',
          i_createdAt = 3, i_updatedAt = 3\<rparr>,
         \<lparr>i_id = 1, i_title = ''Tea'', i_description = [], i_userId = ''u1'',
          i_createdAt = 5, i_updatedAt = 5\<rparr>], next_oid = 2\<rparr>" "''u1''"
        "[''title'' \<mapsto> ''Salt'', ''userId'' \<mapsto> ''u2'']" 9]
     list_by_owner [of "\<lparr>users = [], items =
        [\<lparr>i_id = 0, i_title = ''Milk'', i_description = ''2%'', i_userId = ''u1'',
          i_createdAt = 3, i_updatedAt = 3\<rparr>,
         \<lparr>i_id = 1, i_title = ''Tea'', i_description = [], i_userId = ''u1'',
          i_createdAt = 5, i_updatedAt = 5\<rparr>], next_oid = 2\<rparr>" "''u3''" "Map.empty" 0]
  by (simp add: Item_find_sorted_def owned_by_def)

section \<open>Creating items\<close>

lemma Item_create_ok:
  assumes "trim t \<noteq> []" "u \<noteq> []"
  shows "Item_create now s (Some t) description (Some u) =
     Inr (s\<lparr>items := items s @
               [\<lparr>i_id = next_oid s, i_title = trim t,
                 i_description = (case description of None \<Rightarrow> [] | Some d \<Rightarrow> trim d),
                 i_userId = u, i_createdAt = now, i_updatedAt = now\<rparr>],
             next_oid := Suc (next_oid s)\<rparr>,
          \<lparr>i_id = next_oid s, i_title = trim t,
            i_description = (case description of None \<Rightarrow> [] | Some d \<Rightarrow> trim d),
            i_userId = u, i_createdAt = now, i_updatedAt = now\<rparr>)"
  using assms
  by (simp add: Item_create_def failed_paths_def required_fails_def Let_def)

lemma create_item_400_iff:
  "status (snd (create_item now s b)) = 400 \<longleftrightarrow> falsy (b ''title'') \<or> falsy (b ''userId'')"
  by (auto simp: create_item_def status_def Let_def split: sum.splits)

lemma Item_create_users:
  "Item_create now (s\<lparr>users := us\<rparr>) t d u =
     (case Item_create now s t d u of
        Inl err \<Rightarrow> Inl err
      | Inr (s', it) \<Rightarrow> Inr (s'\<lparr>users := us\<rparr>, it))"
  by (auto simp: Item_create_def Let_def split: option.splits)

lemma create_item_users:
  "create_item now (s\<lparr>users := us\<rparr>) b =
     ((fst (create_item now s b))\<lparr>users := us\<rparr>, snd (create_item now s b))"
  by (auto simp: create_item_def Let_def Item_create_users split: sum.splits)

text \<open>
  C6. Create answers 400 exactly when \<^verbatim>\<open>title\<close> or \<^verbatim>\<open>userId\<close> is missing or empty.
  With a title that is non-empty after trimming and a non-empty \<^verbatim>\<open>userId\<close> it answers
  201 with the stored item: the next ObjectId (not the id of any item, when all ids in
  use were handed out before), the caller's \<^verbatim>\<open>userId\<close> as given, and the trimmed
  description, empty when omitted. The users play no part: with any other list of users
  the answer and the items are the same.
\<close>

theorem create_item_contract:
  "(status (snd (create_item now s b)) = 400 \<longleftrightarrow> falsy (b ''title'') \<or> falsy (b ''userId''))
   \<and> (b ''title'' = Some t \<and> trim t \<noteq> [] \<and> b ''userId'' = Some u \<and> u \<noteq> [] \<longrightarrow>
        create_item now s b =
          (s\<lparr>items := items s @
               [\<lparr>i_id = next_oid s, i_title = trim t,
                 i_description = (case b ''description'' of None \<Rightarrow> [] | Some d \<Rightarrow> trim d),
                 i_userId = u, i_createdAt = now, i_updatedAt = now\<rparr>],
             next_oid := Suc (next_oid s)\<rparr>,
           201,
           JObj [(''status'', JStr ''Success''),
                 (''item'', item_toJSON
                    \<lparr>i_id = next_oid s, i_title = trim t,
                      i_description = (case b ''description'' of None \<Rightarrow> [] | Some d \<Rightarrow> trim d),
                      i_userId = u, i_createdAt = now, i_updatedAt = now\<rparr>)]))
   \<and> (ids_below s \<longrightarrow> next_oid s \<notin> set (item_ids s))
   \<and> create_item now (s\<lparr>users := us\<rparr>) b =
        ((fst (create_item now s b))\<lparr>users := us\<rparr>, snd (create_item now s b))"
proof (intro conjI impI)
  show "status (snd (create_item now s b)) = 400 \<longleftrightarrow> falsy (b ''title'') \<or> falsy (b ''userId'')"
    by (rule create_item_400_iff)
next
  assume a: "b ''title'' = Some t \<and> trim t \<noteq> [] \<and> b ''userId'' = Some u \<and> u \<noteq> []"
  then have "t \<noteq> []" by (auto dest: trim_nonempty)
  with a show "create_item now s b =
          (s\<lparr>items := items s @
               [\<lparr>i_id = next_oid s, i_title = trim t,
                 i_description = (case b ''description'' of None \<Rightarrow> [] | Some d \<Rightarrow> trim d),
                 i_userId = u, i_createdAt = now, i_updatedAt = now\<rparr>],
             next_oid := Suc (next_oid s)\<rparr>,
           201,
           JObj [(''status'', JStr ''Success''),
                 (''item'', item_toJSON
                    \<lparr>i_id = next_oid s, i_title = trim t,
                      i_description = (case b ''description'' of None \<Rightarrow> [] | Some d \<Rightarrow> trim d),
                      i_userId = u, i_createdAt = now, i_updatedAt = now\<rparr>)])"
    by (simp add: create_item_def Let_def Item_create_ok)
next
  assume "ids_below s"
  then show "next_oid s \<notin> set (item_ids s)"
    by (auto simp: ids_below_def list_all_iff)
next
  show "create_item now (s\<lparr>users := us\<rparr>) b =
        ((fst (create_item now s b))\<lparr>users := us\<rparr>, snd (create_item now s b))"
    by (rule create_item_users)
qed

text \<open>The theorem at a Create without description, for an owner that no user has.\<close>

theorem create_item_contract_witness:
  "create_item 7 \<lparr>users = [], items = [], next_oid = 4\<rparr>
      [''title'' \<mapsto> ''Milk'', ''userId'' \<mapsto> ''nobody'']
   = (\<lparr>users = [], items = [\<lparr>i_id = 4, i_title = ''Milk'', i_description = [],
          i_userId = ''nobody'', i_createdAt = 7, i_updatedAt = 7\<rparr>], next_oid = 5\<rparr>,
      201,
      JObj [(''status'', JStr ''Success''),
            (''item'', item_toJSON \<lparr>i_id = 4, i_title = ''Milk'', i_description = [],
                i_userId = ''nobody'', i_createdAt = 7, i_updatedAt = 7\<rparr>)])
   \<and> 4 \<notin> set (item_ids \<lparr>users = [], items = [], next_oid = 4\<rparr>)"
  using create_item_contract [of 7 "\<lparr>users = [], items = [], next_oid = 4\<rparr>"
      "[''title'' \<mapsto> ''Milk'', ''userId'' \<mapsto> ''nobody'']" "''Milk''" "''nobody''" "[]"]
  by (simp add: trim_def is_ws_def ids_below_def item_ids_def)

section \<open>Updating and deleting items\<close>

lemma find_id_absent:
  "k \<notin> set (item_ids s) \<Longrightarrow> find (\<lambda>i. i_id i = k) (items s) = None"
  by (force simp: item_ids_def find_None_iff)

lemma find_id_present:
  assumes "distinct (item_ids s)" "old \<in> set (items s)"
  shows "find (\<lambda>i. i_id i = i_id old) (items s) = Some old"
  using find_unique [of i_id "items s" old] assms by (simp add: item_ids_def)

lemma update_item_cast_error:
  assumes "cast_ObjectId iid = Inl err"
    and "b ''title'' = Some t" "t \<noteq> []" "b ''description'' = Some d" "d \<noteq> []"
  shows "update_item now s iid b = (s, 500, error_body (message_or err ''Error updating item''))"
  using assms
  by (simp add: update_item_def Item_findByIdAndUpdate_def)

text \<open>
  C7 (as amended). For every route parameter that is an ObjectId (24 hexadecimal
  digits) which no stored item has, Update with a non-empty title and description
  answers 404 \<^verbatim>\<open>Item not found\<close> and returns the database unchanged. For a route
  parameter that is no ObjectId the lookup throws, and Update answers 500, again with
  the database unchanged.
\<close>

theorem update_missing_item:
  assumes "b ''title'' = Some t" "t \<noteq> []" "b ''description'' = Some d" "d \<noteq> []"
  shows "(cast_ObjectId iid = Inr k \<and> k \<notin> set (item_ids s)
          \<longrightarrow> update_item now s iid b = (s, 404, error_body ''Item not found''))
       \<and> (cast_ObjectId iid = Inl err
          \<longrightarrow> fst (update_item now s iid b) = s \<and> status (snd (update_item now s iid b)) = 500)"
proof (intro conjI impI)
  assume "cast_ObjectId iid = Inr k \<and> k \<notin> set (item_ids s)"
  with assms show "update_item now s iid b = (s, 404, error_body ''Item not found'')"
    by (simp add: update_item_def Item_findByIdAndUpdate_def find_id_absent)
next
  assume c: "cast_ObjectId iid = Inl err"
  from update_item_cast_error [OF c assms] show "fst (update_item now s iid b) = s" by simp
  from update_item_cast_error [OF c assms]
  show "status (snd (update_item now s iid b)) = 500" by (simp add: status_def)
qed

text \<open>The theorem at the identifier 10 in a store whose only item has identifier 0.\<close>

theorem update_missing_item_witness:
  "update_item 8 \<lparr>users = [], items = [\<lparr>i_id = 0, i_title = ''Milk'', i_description = ''2%'',
        i_userId = ''u1'', i_createdAt = 3, i_updatedAt = 3\<rparr>], next_oid = 1\<rparr>
      ''00000000000000000000000A'' [''title'' \<mapsto> ''Milk'', ''description'' \<mapsto> ''Whole'']
   = (\<lparr>users = [], items = [\<lparr>i_id = 0, i_title = ''Milk'', i_description = ''2%'',
        i_userId = ''u1'', i_createdAt = 3, i_updatedAt = 3\<rparr>], next_oid = 1\<rparr>,
      404, error_body ''Item not found'')"
proof -
  have c: "cast_ObjectId ''00000000000000000000000A'' = Inr 10"
    by (simp add: cast_ObjectId_def hex_val_def)
  show ?thesis
    using update_missing_item [of
        "[''title'' \<mapsto> ''Milk'', ''description'' \<mapsto> ''Whole'']" "''Milk''" "''Whole''"
        "''00000000000000000000000A''" 10
        "\<lparr>users = [], items = [\<lparr>i_id = 0, i_title = ''Milk'', i_description = ''2%'',
        i_userId = ''u1'', i_createdAt = 3, i_updatedAt = 3\<rparr>], next_oid = 1\<rparr>" 8]
    by (simp add: item_ids_def c)
qed

text \<open>
  C7 as stated fails: \<^verbatim>\<open>abc\<close> is the identifier of no stored item, yet
  \<^verbatim>\<open>PUT /items/abc\<close> with a non-empty title and description answers 500, not 404:
  \<^verbatim>\<open>findByIdAndUpdate\<close> throws a \<^verbatim>\<open>CastError\<close> and the \<^verbatim>\<open>catch\<close> block answers.
\<close>

theorem update_malformed_id_counterexample:
  "cast_ObjectId ''abc'' = Inl (CastError ''abc'' ''_id'' ''Item'')
   \<and> status (snd (update_item 8 \<lparr>users = [], items = [\<lparr>i_id = 0, i_title = ''Milk'', i_description = ''2%'',
        i_userId = ''u1'', i_createdAt = 3, i_updatedAt = 3\<rparr>], next_oid = 1\<rparr>
      ''abc'' [''title'' \<mapsto> ''Milk'', ''description'' \<mapsto> ''Whole''])) = 500
   \<and> fst (update_item 8 \<lparr>users = [], items = [\<lparr>i_id = 0, i_title = ''Milk'', i_description = ''2%'',
        i_userId = ''u1'', i_createdAt = 3, i_updatedAt = 3\<rparr>], next_oid = 1\<rparr>
      ''abc'' [''title'' \<mapsto> ''Milk'', ''description'' \<mapsto> ''Whole'']) =
      \<lparr>users = [], items = [\<lparr>i_id = 0, i_title = ''Milk'', i_description = ''2%'',
        i_userId = ''u1'', i_createdAt = 3, i_updatedAt = 3\<rparr>], next_oid = 1\<rparr>"
  by (simp add: cast_ObjectId_def update_item_def Item_findByIdAndUpdate_def status_def)

lemma map_replace_unique:
  assumes "distinct (map f xs)" "x \<in> set xs"
  shows "map (\<lambda>y. if f y = f x then g y else y) xs = map (\<lambda>y. if y = x then g x else y) xs"
proof (rule map_cong [OF refl])
  fix y assume "y \<in> set xs"
  with assms have "f y = f x \<longleftrightarrow> y = x"
    by (auto simp: distinct_map dest: inj_onD)
  then show "(if f y = f x then g y else y) = (if y = x then g x else y)" by auto
qed

text \<open>
  C8 (as amended). For every stored item and every non-empty title and description,
  Update answers 200 with the updated item; in the database exactly that item is
  replaced, by itself with the trimmed title, the trimmed description and
  \<^verbatim>\<open>updatedAt\<close> set to the time of the request. Its \<^verbatim>\<open>_id\<close>, \<^verbatim>\<open>userId\<close> and
  \<^verbatim>\<open>createdAt\<close>, every other item, and the users are as before. (Item identifiers are
  distinct in every state the handlers reach, see \<open>run_ids_distinct\<close>.)
\<close>

theorem update_frame:
  assumes "cast_ObjectId iid = Inr (i_id old)" "old \<in> set (items s)" "distinct (item_ids s)"
    and "b ''title'' = Some t" "t \<noteq> []" "b ''description'' = Some d" "d \<noteq> []"
  shows "update_item now s iid b =
           (s\<lparr>items := map (\<lambda>i. if i = old
                   then old\<lparr>i_title := trim t, i_description := trim d, i_updatedAt := now\<rparr>
                   else i) (items s)\<rparr>,
            200,
            JObj [(''status'', JStr ''Success''),
                  (''item'', item_toJSON
                     (old\<lparr>i_title := trim t, i_description := trim d, i_updatedAt := now\<rparr>))])"
proof -
  have f: "find (\<lambda>i. i_id i = i_id old) (items s) = Some old"
    using assms(3,2) by (rule find_id_present)
  have m: "map (\<lambda>i. if i_id i = i_id old then apply_update now t d i else i) (items s) =
           map (\<lambda>i. if i = old then apply_update now t d old else i) (items s)"
    using assms(3,2) unfolding item_ids_def by (rule map_replace_unique)
  show ?thesis
    using assms(1,4-7)
    by (simp add: update_item_def Item_findByIdAndUpdate_def f m apply_update_def)
qed

text \<open>The theorem at the first of two items.\<close>

theorem update_frame_witness:
  "update_item 9 \<lparr>users = [], items =
        [\<lparr>i_id = 0, i_title = ''Milk'', i_description = ''2%'', i_userId = ''u1'',
          i_createdAt = 3, i_updatedAt = 3\<rparr>,
         \<lparr>i_id = 1, i_title = ''Tea'', i_description = [], i_userId = ''u2'',
          i_createdAt = 5, i_updatedAt = 5\<rparr>], next_oid = 2\<rparr>
      ''000000000000000000000000'' [''title'' \<mapsto> ''Milk'', ''description'' \<mapsto> '' Whole'']
   = (\<lparr>users = [], items =
        [\<lparr>i_id = 0, i_title = ''Milk'', i_description = ''Whole'', i_userId = ''u1'',
          i_createdAt = 3, i_updatedAt = 9\<rparr>,
         \<lparr>i_id = 1, i_title = ''Tea'', i_description = [], i_userId = ''u2'',
          i_createdAt = 5, i_updatedAt = 5\<rparr>], next_oid = 2\<rparr>,
      200,
      JObj [(''status'', JStr ''Success''),
            (''item'', item_toJSON \<lparr>i_id = 0, i_title = ''Milk'', i_description = ''Whole'',
                i_userId = ''u1'', i_createdAt = 3, i_updatedAt = 9\<rparr>)])"
proof -
  have c: "cast_ObjectId ''000000000000000000000000'' =
      Inr (i_id \<lparr>i_id = 0, i_title = ''Milk'', i_description = ''2%'', i_userId = ''u1'',
          i_createdAt = 3, i_updatedAt = 3\<rparr>)"
    by (simp add: cast_ObjectId_def hex_val_def)
  show ?thesis
    using update_frame [OF c, of
        "\<lparr>users = [], items =
        [\<lparr>i_id = 0, i_title = ''Milk'', i_description = ''2%'', i_userId = ''u1'',
          i_createdAt = 3, i_updatedAt = 3\<rparr>,
         \<lparr>i_id = 1, i_title = ''Tea'', i_description = [], i_userId = ''u2'',
          i_createdAt = 5, i_updatedAt = 5\<rparr>], next_oid = 2\<rparr>"
        "[''title'' \<mapsto> ''Milk'', ''description'' \<mapsto> '' Whole'']" "''Milk''" "'' Whole''" 9]
    by (simp add: item_ids_def trim_def is_ws_def)
qed

text \<open>
  C8 as stated fails: a successful Update overwrites more than title and description.
  The item's \<^verbatim>\<open>updatedAt\<close> was 3 and is 9, the time of the request, afterwards.
\<close>

theorem update_timestamp_counterexample:
  "map i_updatedAt (items \<lparr>users = [], items =
        [\<lparr>i_id = 0, i_title = ''Milk'', i_description = ''2%'', i_userId = ''u1'',
          i_createdAt = 3, i_updatedAt = 3\<rparr>], next_oid = 1\<rparr>) = [3]
   \<and> status (snd (update_item 9 \<lparr>users = [], items =
        [\<lparr>i_id = 0, i_title = ''Milk'', i_description = ''2%'', i_userId = ''u1'',
          i_createdAt = 3, i_updatedAt = 3\<rparr>], next_oid = 1\<rparr>
      ''000000000000000000000000'' [''title'' \<mapsto> ''Milk'', ''description'' \<mapsto> ''Whole''])) = 200
   \<and> map i_updatedAt (items (fst (update_item 9 \<lparr>users = [], items =
        [\<lparr>i_id = 0, i_title = ''Milk'', i_description = ''2%'', i_userId = ''u1'',
          i_createdAt = 3, i_updatedAt = 3\<rparr>], next_oid = 1\<rparr>
      ''000000000000000000000000'' [''title'' \<mapsto> ''Milk'', ''description'' \<mapsto> ''Whole'']))) = [9]"
  by (simp add: update_item_def Item_findByIdAndUpdate_def cast_ObjectId_def hex_val_def
      apply_update_def status_def)

lemma delete_item_present:
  assumes "cast_ObjectId iid = Inr k" "k \<in> set (item_ids s)"
  shows "delete_item s iid =
     (s\<lparr>items := filter (\<lambda>i. i_id i \<noteq> k) (items s)\<rparr>,
      200, JObj [(''status'', JStr ''Success''), (''message'', JStr ''Item deleted'')])"
proof (cases "find (\<lambda>i. i_id i = k) (items s)")
  case None
  with assms(2) show ?thesis by (force simp: find_None_iff item_ids_def)
next
  case (Some old)
  with assms(1) show ?thesis by (simp add: delete_item_def Item_findByIdAndDelete_def)
qed

lemma delete_item_absent:
  assumes "cast_ObjectId iid = Inr k" "k \<notin> set (item_ids s)"
  shows "delete_item s iid = (s, 404, error_body ''Item not found'')"
  using assms by (simp add: delete_item_def Item_findByIdAndDelete_def find_id_absent)

text \<open>
  C9. For every identifier of a stored item, Delete answers 200 with
  \<^verbatim>\<open>{status: "Success", message: "Item deleted"}\<close> and removes the item and nothing
  else; a second Delete of the same identifier answers 404 and changes nothing; and
  no later sequence of requests brings the identifier back.
\<close>

theorem delete_twice:
  assumes "cast_ObjectId iid = Inr k" "k \<in> set (item_ids s)"
  shows "delete_item s iid =
           (s\<lparr>items := filter (\<lambda>i. i_id i \<noteq> k) (items s)\<rparr>,
            200, JObj [(''status'', JStr ''Success''), (''message'', JStr ''Item deleted'')])
       \<and> delete_item (fst (delete_item s iid)) iid =
           (fst (delete_item s iid), 404, error_body ''Item not found'')
       \<and> (ids_below s \<longrightarrow> k \<notin> set (item_ids (run (fst (delete_item s iid)) qs)))"
proof (intro conjI impI)
  show d: "delete_item s iid =
           (s\<lparr>items := filter (\<lambda>i. i_id i \<noteq> k) (items s)\<rparr>,
            200, JObj [(''status'', JStr ''Success''), (''message'', JStr ''Item deleted'')])"
    using assms by (rule delete_item_present)
  have gone: "k \<notin> set (item_ids (fst (delete_item s iid)))"
    by (auto simp: d item_ids_def)
  show "delete_item (fst (delete_item s iid)) iid =
           (fst (delete_item s iid), 404, error_body ''Item not found'')"
    using assms(1) gone by (rule delete_item_absent)
  assume "ids_below s"
  with assms(2) have "k < next_oid s" by (auto simp: ids_below_def list_all_iff)
  with gone have "retired k (fst (delete_item s iid))" by (simp add: retired_def d)
  then have "retired k (run (fst (delete_item s iid)) qs)" by (rule run_retired)
  then show "k \<notin> set (item_ids (run (fst (delete_item s iid)) qs))" by (simp add: retired_def)
qed

text \<open>The theorem at a store with one item.\<close>

theorem delete_twice_witness:
  "delete_item \<lparr>users = [], items =
        [\<lparr>i_id = 0, i_title = ''Milk'', i_description = ''2%'', i_userId = ''u1'',
          i_createdAt = 3, i_updatedAt = 3\<rparr>], next_oid = 1\<rparr> ''000000000000000000000000''
   = (\<lparr>users = [], items = [], next_oid = 1\<rparr>,
      200, JObj [(''status'', JStr ''Success''), (''message'', JStr ''Item deleted'')])
   \<and> delete_item \<lparr>users = [], items = [], next_oid = 1\<rparr> ''000000000000000000000000''
   = (\<lparr>users = [], items = [], next_oid = 1\<rparr>, 404, error_body ''Item not found'')
   \<and> 0 \<notin> set (item_ids (run \<lparr>users = [], items = [], next_oid = 1\<rparr>
        [(4, CreateItem [''title'' \<mapsto> ''Milk'', ''userId'' \<mapsto> ''u1''])]))"
proof -
  let ?s = "\<lparr>users = [], items =
        [\<lparr>i_id = 0, i_title = ''Milk'', i_description = ''2%'', i_userId = ''u1'',
          i_createdAt = 3, i_updatedAt = 3\<rparr>], next_oid = 1\<rparr>"
  let ?qs = "[(4, CreateItem [''title'' \<mapsto> ''Milk'', ''userId'' \<mapsto> ''u1''])]"
  have c: "cast_ObjectId ''000000000000000000000000'' = Inr 0"
    by (simp add: cast_ObjectId_def hex_val_def)
  have k: "0 \<in> set (item_ids ?s)" by (simp add: item_ids_def)
  have below: "ids_below ?s" by (simp add: ids_below_def item_ids_def)
  note th = delete_twice [OF c k, of ?qs]
  from th have first: "delete_item ?s ''000000000000000000000000'' =
      (\<lparr>users = [], items = [], next_oid = 1\<rparr>,
       200, JObj [(''status'', JStr ''Success''), (''message'', JStr ''Item deleted'')])"
    by simp
  from th below show ?thesis unfolding first by simp
qed

lemma create_item_ids_distinct:
  assumes "ids_below s" "distinct (item_ids s)"
  shows "distinct (item_ids (fst (create_item now s b)))"
proof -
  from assms(1) have "next_oid s \<notin> set (item_ids s)"
    by (auto simp: ids_below_def list_all_iff)
  with create_item_effect [of now s b] assms(2) show ?thesis
    by (auto simp: item_ids_def)
qed

lemma delete_item_ids_distinct:
  assumes "distinct (item_ids s)"
  shows "distinct (item_ids (fst (delete_item s iid)))"
  using assms
  by (auto simp: delete_item_def Item_findByIdAndDelete_def item_ids_def distinct_map_filter
           split: sum.splits option.splits)

lemma handle_ids_distinct:
  assumes "ids_below s" "distinct (item_ids s)"
  shows "distinct (item_ids (fst (handle now s q)))"
proof (cases q)
  case (Register b)
  with register_effect [of now s b] assms(2) show ?thesis by (auto simp: item_ids_def)
next
  case (CreateItem b)
  with assms show ?thesis by (simp add: create_item_ids_distinct)
next
  case (UpdateItem iid b)
  with update_item_effect [of now s iid b] assms(2) show ?thesis by simp
next
  case (DeleteItem iid)
  with assms(2) show ?thesis by (simp add: delete_item_ids_distinct)
qed (simp_all add: assms)

lemma run_ids_distinct:
  "ids_below s \<Longrightarrow> distinct (item_ids s) \<Longrightarrow> distinct (item_ids (run s qs))"
  by (induction qs arbitrary: s) (simp_all add: handle_ids_below handle_ids_distinct)

section \<open>Serialisation of items\<close>

lemma keys_item_toJSON:
  "keys (item_toJSON i) =
     [''_id'', ''title'', ''description'', ''userId'', ''createdAt'', ''updatedAt'', ''__v'']"
  by (simp add: item_toJSON_def)

lemma item_objects_error: "item_objects (c, error_body m) = []"
  by (simp add: item_objects_def error_body_def)

lemma item_objects_envelope:
  "item_objects (c, JObj [(''status'', x), (''item'', j)]) = [j]"
  by (simp add: item_objects_def)

lemma item_objects_array: "item_objects (c, JArr xs) = xs"
  by (simp add: item_objects_def)

lemma create_item_response:
  "(\<exists>c m. snd (create_item now s b) = (c, error_body m)) \<or>
   (\<exists>it. snd (create_item now s b) =
      (201, JObj [(''status'', JStr ''Success''), (''item'', item_toJSON it)]))"
  by (auto simp: create_item_def Let_def split: sum.splits)

lemma update_item_response:
  "(\<exists>c m. snd (update_item now s iid b) = (c, error_body m)) \<or>
   (\<exists>it. snd (update_item now s iid b) =
      (200, JObj [(''status'', JStr ''Success''), (''item'', item_toJSON it)]))"
  by (auto simp: update_item_def Let_def split: sum.splits option.splits)

lemma create_item_objects:
  "j \<in> set (item_objects (snd (create_item now s b))) \<Longrightarrow> \<exists>it. j = item_toJSON it"
  using create_item_response [of now s b]
  by (auto simp: item_objects_error item_objects_envelope)

lemma update_item_objects:
  "j \<in> set (item_objects (snd (update_item now s iid b))) \<Longrightarrow> \<exists>it. j = item_toJSON it"
  using update_item_response [of now s iid b]
  by (auto simp: item_objects_error item_objects_envelope)

lemma list_items_objects:
  "j \<in> set (item_objects (list_items s owner)) \<Longrightarrow> \<exists>it. j = item_toJSON it"
  by (auto simp: list_items_def item_objects_array)

text \<open>
  C2 (as amended). Every item object in a response of Create, List or Update has
  exactly the fields \<^verbatim>\<open>_id\<close>, \<^verbatim>\<open>title\<close>, \<^verbatim>\<open>description\<close>, \<^verbatim>\<open>userId\<close>,
  \<^verbatim>\<open>createdAt\<close>, \<^verbatim>\<open>updatedAt\<close> and \<^verbatim>\<open>__v\<close>, each once.
\<close>

theorem item_serialisation:
  "\<forall>j \<in> set (item_objects (snd (create_item now s b)))
        \<union> set (item_objects (list_items s' owner))
        \<union> set (item_objects (snd (update_item now' s'' iid b'))).
     set (keys j) =
       {''_id'', ''title'', ''description'', ''userId'', ''createdAt'', ''updatedAt'', ''__v''}
     \<and> distinct (keys j)"
proof
  fix j
  assume "j \<in> set (item_objects (snd (create_item now s b)))
        \<union> set (item_objects (list_items s' owner))
        \<union> set (item_objects (snd (update_item now' s'' iid b')))"
  then obtain it where "j = item_toJSON it"
    using create_item_objects list_items_objects update_item_objects by blast
  then show "set (keys j) =
       {''_id'', ''title'', ''description'', ''userId'', ''createdAt'', ''updatedAt'', ''__v''}
     \<and> distinct (keys j)"
    by (simp add: keys_item_toJSON)
qed

text \<open>The theorem at the response of a Create.\<close>

theorem item_serialisation_witness:
  "item_objects (snd (create_item 7 empty_db [''title'' \<mapsto> ''Milk'', ''userId'' \<mapsto> ''u1'']))
     = [item_toJSON \<lparr>i_id = 0, i_title = ''Milk'', i_description = [], i_userId = ''u1'',
                      i_createdAt = 7, i_updatedAt = 7\<rparr>]
   \<and> set (keys (item_toJSON \<lparr>i_id = 0, i_title = ''Milk'', i_description = [], i_userId = ''u1'',
                      i_createdAt = 7, i_updatedAt = 7\<rparr>)) =
       {''_id'', ''title'', ''description'', ''userId'', ''createdAt'', ''updatedAt'', ''__v''}"
proof -
  have o: "item_objects (snd (create_item 7 empty_db [''title'' \<mapsto> ''Milk'', ''userId'' \<mapsto> ''u1'']))
     = [item_toJSON \<lparr>i_id = 0, i_title = ''Milk'', i_description = [], i_userId = ''u1'',
                      i_createdAt = 7, i_updatedAt = 7\<rparr>]"
    by (simp add: create_item_def Item_create_def failed_paths_def required_fails_def
        item_objects_def empty_db_def trim_def is_ws_def Let_def)
  from item_serialisation [of 7 empty_db "[''title'' \<mapsto> ''Milk'', ''userId'' \<mapsto> ''u1'']"
      empty_db "[]" 0 empty_db "[]" Map.empty]
  have "set (keys (item_toJSON \<lparr>i_id = 0, i_title = ''Milk'', i_description = [], i_userId = ''u1'',
                      i_createdAt = 7, i_updatedAt = 7\<rparr>)) =
       {''_id'', ''title'', ''description'', ''userId'', ''createdAt'', ''updatedAt'', ''__v''}"
    unfolding o by simp
  with o show ?thesis by simp
qed

text \<open>
  C2 as stated fails: the listed item has no field \<^verbatim>\<open>id\<close> and no field \<^verbatim>\<open>ownerId\<close>;
  the identifier is under \<^verbatim>\<open>_id\<close> and the owner under \<^verbatim>\<open>userId\<close>.
\<close>

theorem item_field_names_counterexample:
  "list_items \<lparr>users = [], items =
        [\<lparr>i_id = 0, i_title = ''Milk'', i_description = ''2%'', i_userId = ''u1'',
          i_createdAt = 3, i_updatedAt = 3\<rparr>], next_oid = 1\<rparr> ''u1''
   = (200, JArr [JObj [(''_id'', JId 0), (''title'', JStr ''Milk''), (''description'', JStr ''2%''),
                       (''userId'', JStr ''u1''), (''createdAt'', JDate 3), (''updatedAt'', JDate 3),
                       (''__v'', JNum 0)]])
   \<and> field (JObj [(''_id'', JId 0), (''title'', JStr ''Milk''), (''description'', JStr ''2%''),
                       (''userId'', JStr ''u1''), (''createdAt'', JDate 3), (''updatedAt'', JDate 3),
                       (''__v'', JNum 0)]) ''id'' = None
   \<and> field (JObj [(''_id'', JId 0), (''title'', JStr ''Milk''), (''description'', JStr ''2%''),
                       (''userId'', JStr ''u1''), (''createdAt'', JDate 3), (''updatedAt'', JDate 3),
                       (''__v'', JNum 0)]) ''ownerId'' = None"
  by (simp add: list_items_def Item_find_sorted_def item_toJSON_def)

section \<open>Whitespace in registration\<close>

lemma only_ws_trim: "only_ws s \<Longrightarrow> trim s = []"
proof -
  assume "only_ws s"
  then have "\<forall>c \<in> set s. is_ws c" by (simp add: only_ws_def list_all_iff)
  then have d: "dropWhile is_ws s = []" by (induction s) auto
  show ?thesis unfolding trim_def d by simp
qed

lemma User_create_blank:
  assumes "trim n = [] \<or> trim e = []"
  shows "\<exists>paths. User_create now s (Some n) (Some e) (Some p) = Inl (ValidationError ''User'' paths)
           \<and> paths \<noteq> []"
  using assms
  by (auto simp: User_create_def failed_paths_def required_fails_def Let_def)

text \<open>
  C10. A name or an email that is non-empty but consists of white space only passes the
  check of the required fields; when the trimmed email is not registered,
  \<^verbatim>\<open>User.create\<close> trims the field to the empty string and throws a validation error,
  and Register answers 500 \<^verbatim>\<open>Error registering user\<close>, not 400.
\<close>

theorem register_whitespace_is_500:
  assumes "b ''name'' = Some n" "b ''email'' = Some e" "b ''password'' = Some p"
    and "n \<noteq> []" "e \<noteq> []" "p \<noteq> []" "only_ws n \<or> only_ws e" "trim e \<notin> set (emails s)"
  shows "\<not> (falsy (b ''name'') \<or> falsy (b ''email'') \<or> falsy (b ''password''))
       \<and> (\<exists>paths. User_create now s (b ''name'') (b ''email'') (b ''password'') =
                     Inl (ValidationError ''User'' paths) \<and> paths \<noteq> [])
       \<and> register now s b = (s, 500, error_body ''Error registering user'')"
proof -
  from assms(7) have blank: "trim n = [] \<or> trim e = []" by (auto dest: only_ws_trim)
  then obtain paths where
    c: "User_create now s (Some n) (Some e) (Some p) = Inl (ValidationError ''User'' paths)"
    and ne: "paths \<noteq> []"
    using User_create_blank by blast
  have "register now s b = (s, 500, error_body ''Error registering user'')"
    using assms(1-6,8) c
    by (simp add: register_def Let_def User_findOne_absent register_catch_def)
  with assms(1-6) c ne show ?thesis by simp
qed

text \<open>The theorem at the name of two spaces: such an input exists.\<close>

theorem register_whitespace_is_500_witness:
  "register 1 empty_db [''name'' \<mapsto> ''  '', ''email'' \<mapsto> ''ana@x.com'', ''password'' \<mapsto> ''Secret123'']
     = (empty_db, 500, error_body ''Error registering user'')"
  using register_whitespace_is_500 [of
      "[''name'' \<mapsto> ''  '', ''email'' \<mapsto> ''ana@x.com'', ''password'' \<mapsto> ''Secret123'']"
      "''  ''" "''ana@x.com''" "''Secret123''" empty_db 1]
  by (simp add: only_ws_def is_ws_def emails_def empty_db_def)

end
